theory Spec2Isabelle
  imports Main
begin

section \<open>Values, errors and rows\<close>

text \<open>
  The handlers verified here are \<open>handle_chat\<close>, \<open>get_all_chats\<close>,
  \<open>get_threaded_comments\<close> and \<open>build_comment_tree\<close> of the snapshot
  \<open>app_20250507145350.py\<close>, and \<open>post_comment\<close> of the snapshot
  \<open>app_20250427081731.py\<close>. The module \<open>models\<close> they import is not part of the
  sources; its tables are modelled as lists of rows in insertion order.
\<close>

text \<open>A JSON value of a request body; \<open>request.get_json()\<close> is a dictionary of them.\<close>

datatype json = JNull | JInt int | JStr string

type_synonym body = "string \<rightharpoonup> json"

text \<open>The exceptions the modelled handlers can raise.\<close>

datatype py_error = KeyError string | NameError string | AttributeError string | RecursionError

datatype http_method = GET | POST

text \<open>
  Modelled from the spec: the rows of \<open>models.Conversation\<close>, \<open>models.Message\<close>,
  \<open>models.User\<close> and \<open>models.Comment\<close>, with the columns the handlers read and write.
  \<open>profile_picture\<close> is \<open>None\<close> when the user has no profile, and \<open>Some p\<close> holds
  the (nullable) picture of the profile.
\<close>

record conversation =
  conv_id :: int
  user1_id :: int
  user2_id :: int

record message =
  message_id :: int
  conversation_id :: int
  sender_id :: int
  recipient_id :: int
  content :: json
  timestamp :: nat

record user =
  user_id :: int
  username :: string
  profile_picture :: "string option option"

record comment =
  comment_id :: int
  comment_content_id :: int
  comment_user_id :: int
  body :: string
  created_at :: nat
  parent_comment_id :: "int option"

text \<open>The payload of the \<open>new_chat\<close> event built at lines 411 to 417.\<close>

record payload =
  payload_id :: int
  receiverName :: string
  lastMessage :: json
  lastMessageTime :: nat
  avatarUrl :: "string option"

text \<open>
  The state the handlers act on: the four tables, the channels currently connected to the
  socket server, and the events delivered so far, each with the channel that received it.
\<close>

record store =
  conversations :: "conversation list"
  messages :: "message list"
  users :: "user list"
  comments :: "comment list"
  connected :: "nat list"
  delivered :: "(nat \<times> string \<times> payload) list"

definition empty_store :: store where
  "empty_store = \<lparr>conversations = [], messages = [], users = [], comments = [],
                   connected = [], delivered = []\<rparr>"

text \<open>
  Modelled from the spec: the persistence layer gives a new row an identifier larger than
  every identifier of its table (an auto-incremented integer key, starting at 1).
\<close>

definition fresh_id :: "int list \<Rightarrow> int" where
  "fresh_id ids = Max (set (0 # ids)) + 1"

text \<open>\<open>User.query.get(uid)\<close>: the row with that key, or \<open>None\<close>.\<close>

definition get_user :: "store \<Rightarrow> int \<Rightarrow> user option" where
  "get_user s uid = find (\<lambda>u. user_id u = uid) (users s)"

section \<open>The names bound in the module\<close>

text \<open>
  The names that the imports and the top-level statements of \<open>app_20250507145350.py\<close>
  bind. From \<open>flask_socketio\<close> only \<open>SocketIO\<close> is imported (line 10); the name
  \<open>emit\<close> that \<open>handle_chat\<close> calls at line 411 is bound nowhere, and it is no builtin.
\<close>

definition module_globals :: "string list" where
  "module_globals =
    [''Flask'', ''jsonify'', ''request'', ''Blueprint'', ''Migrate'', ''CORS'', ''Api'',
     ''JWTManager'', ''create_access_token'', ''jwt_required'', ''get_jwt_identity'',
     ''get_jwt'', ''generate_password_hash'', ''check_password_hash'', ''db'', ''User'',
     ''Profile'', ''Content'', ''Category'', ''Subscription'', ''ContentSubscription'',
     ''Wishlist'', ''Comment'', ''Like'', ''Notification'', ''Share'', ''Conversation'',
     ''Message'', ''timedelta'', ''video_upload_bp'', ''SocketIO'', ''app'', ''migrate'',
     ''api'', ''jwt'', ''socketio'', ''jwt_blocklist'', ''check_if_token_revoked'',
     ''resources_bp'', ''handle_exception'', ''get_user_data'', ''get_all_users'',
     ''register'', ''login'', ''logout'', ''get_profile'', ''create_profile'',
     ''update_profile'', ''delete_profile'', ''create_content'', ''get_all_content'',
     ''get_content_by_id'', ''update_content'', ''delete_content'', ''get_categories'',
     ''add_category'', ''subscribe_category'', ''subscribe_content'',
     ''get_subscribed_categories'', ''add_to_wishlist'', ''get_wishlist'',
     ''like_content'', ''unlike_content'', ''get_threaded_comments'',
     ''build_comment_tree'', ''share_content'', ''deactivate_user'', ''approve_content'',
     ''get_all_chats'', ''handle_chat'', ''get_shared_content'', ''on_connect'']"

text \<open>Reading a global name: a name that is not bound raises \<open>NameError\<close>.\<close>

definition load_global :: "string \<Rightarrow> py_error + unit" where
  "load_global n = (if n \<in> set module_globals then Inr () else Inl (NameError n))"

section \<open>The chat routes\<close>

text \<open>What a chat route answers: the JSON body and the HTTP status.\<close>

datatype reply = Contents "json list" | Ids "int list" | Sent | ErrorReply py_error

type_synonym response = "reply \<times> nat"

text \<open>
  \<open>handle_exception\<close> (lines 39 to 42): the application-wide handler turns every
  exception that leaves a route into a response with status 500. It touches no table.
\<close>

definition handle_exception :: "py_error \<Rightarrow> response" where
  "handle_exception e = (ErrorReply e, 500)"

text \<open>\<open>get_all_chats\<close> (lines 365 to 370): the conversations the caller takes part in.\<close>

definition get_all_chats :: "int \<Rightarrow> store \<Rightarrow> store \<times> response" where
  "get_all_chats current_user s =
     (s, (Ids (map conv_id (filter (\<lambda>c. user1_id c = current_user \<or> user2_id c = current_user)
                               (conversations s))), 200))"

text \<open>
  \<open>Conversation.query.filter_by(user1_id=u1, user2_id=u2).first()\<close>: the first row of
  the table with that pair, or \<open>None\<close>.
\<close>

definition find_conversation :: "store \<Rightarrow> int \<Rightarrow> int \<Rightarrow> conversation option" where
  "find_conversation s u1 u2 =
     find (\<lambda>c. user1_id c = u1 \<and> user2_id c = u2) (conversations s)"

text \<open>
  Lines 377 to 392 of \<open>handle_chat\<close>: look the pair up as (min, max); when there is
  no row, a POST adds one with the same (min, max) pair and commits it, and a GET leaves
  the route with the empty list, which is the result \<open>None\<close> here.
\<close>

definition resolve_conversation ::
  "http_method \<Rightarrow> int \<Rightarrow> int \<Rightarrow> store \<Rightarrow> store \<times> conversation option" where
  "resolve_conversation meth current_user rcpt s =
     (case find_conversation s (min current_user rcpt) (max current_user rcpt) of
        Some c \<Rightarrow> (s, Some c)
      | None \<Rightarrow>
          if meth = POST then
            let c = \<lparr>conv_id = fresh_id (map conv_id (conversations s)),
                     user1_id = min current_user rcpt,
                     user2_id = max current_user rcpt\<rparr>
            in (s\<lparr>conversations := conversations s @ [c]\<rparr>, Some c)
          else (s, None))"

text \<open>
  \<open>emit('new_chat', payload, broadcast=True)\<close>, as the socket server would run it:
  the event goes to every connected channel. Modelled from the spec (section 4.3).
\<close>

definition broadcast :: "string \<Rightarrow> payload \<Rightarrow> store \<Rightarrow> store" where
  "broadcast ev p s = s\<lparr>delivered := delivered s @ map (\<lambda>ch. (ch, ev, p)) (connected s)\<rparr>"

text \<open>
  Lines 394 to 419 of \<open>handle_chat\<close>, the POST branch: read \<open>data['content']\<close>, add
  the message and commit it, fetch both users, then call \<open>emit\<close>. Python evaluates the
  callee before its arguments, so the unbound name raises before the payload is built.
  \<open>now\<close> is the clock reading that the row's timestamp takes.
\<close>

definition post_message ::
  "nat \<Rightarrow> int \<Rightarrow> int \<Rightarrow> body \<Rightarrow> conversation \<Rightarrow> store \<Rightarrow> store \<times> (py_error + response)" where
  "post_message now current_user rcpt data c s =
     (case data ''content'' of
        None \<Rightarrow> (s, Inl (KeyError ''content''))
      | Some txt \<Rightarrow>
          let m = \<lparr>message_id = fresh_id (map message_id (messages s)),
                   conversation_id = conv_id c,
                   sender_id = current_user,
                   recipient_id = rcpt,
                   content = txt,
                   timestamp = now\<rparr>;
              s1 = s\<lparr>messages := messages s @ [m]\<rparr>;
              receiver = get_user s1 rcpt
          in (case load_global ''emit'' of
                Inl e \<Rightarrow> (s1, Inl e)
              | Inr _ \<Rightarrow>
                  (case receiver of
                     None \<Rightarrow> (s1, Inl (AttributeError ''username''))
                   | Some r \<Rightarrow>
                       (broadcast ''new_chat''
                          \<lparr>payload_id = conv_id c,
                           receiverName = username r,
                           lastMessage = content m,
                           lastMessageTime = timestamp m,
                           avatarUrl = (case profile_picture r of None \<Rightarrow> None
                                        | Some pic \<Rightarrow> pic)\<rparr> s1,
                        Inr (Sent, 201)))))"

text \<open>
  Lines 421 to 423 of \<open>handle_chat\<close>, the GET branch:
  \<open>Message.query.filter_by(conversation_id=conversation.id).all()\<close>, the rows in table
  order, and the list of their contents.
\<close>

definition list_messages :: "conversation \<Rightarrow> store \<Rightarrow> json list" where
  "list_messages c s = map content (filter (\<lambda>m. conversation_id m = conv_id c) (messages s))"

text \<open>
  \<open>handle_chat\<close> (lines 372 to 423). \<open>current_user\<close> is the identity of the token,
  \<open>rcpt\<close> the \<open>recipient_id\<close> of the URL, \<open>data\<close> the JSON body (read by a POST only).
\<close>

definition handle_chat ::
  "nat \<Rightarrow> http_method \<Rightarrow> int \<Rightarrow> int \<Rightarrow> body \<Rightarrow> store \<Rightarrow> store \<times> (py_error + response)" where
  "handle_chat now meth current_user rcpt data s =
     (case resolve_conversation meth current_user rcpt s of
        (s1, None) \<Rightarrow> (s1, Inr (Contents [], 200))
      | (s1, Some c) \<Rightarrow>
          if meth = POST then post_message now current_user rcpt data c s1
          else (s1, Inr (Contents (list_messages c s1), 200)))"

text \<open>The route as a client sees it: an exception becomes the response of \<open>handle_exception\<close>.\<close>

definition serve_chat ::
  "nat \<Rightarrow> http_method \<Rightarrow> int \<Rightarrow> int \<Rightarrow> body \<Rightarrow> store \<Rightarrow> store \<times> response" where
  "serve_chat now meth current_user rcpt data s =
     (case handle_chat now meth current_user rcpt data s of
        (s1, Inl e) \<Rightarrow> (s1, handle_exception e)
      | (s1, Inr r) \<Rightarrow> (s1, r))"

text \<open>
  Requests served one after the other: each is a call of \<open>handle_chat\<close> (through the
  exception handler) or of \<open>get_all_chats\<close>, and the next one sees the store the
  previous one left.
\<close>

datatype request = Chat nat http_method int int body | AllChats int

fun step :: "request \<Rightarrow> store \<Rightarrow> store" where
  "step (Chat now meth current_user rcpt data) s =
     fst (serve_chat now meth current_user rcpt data s)"
| "step (AllChats current_user) s = fst (get_all_chats current_user s)"

definition run :: "request list \<Rightarrow> store \<Rightarrow> store" where
  "run reqs s = fold step reqs s"

text \<open>
  The invariant of the conversation table: every row has its lower participant first, and
  no two rows hold the same pair.
\<close>

definition conversation_invariant :: "store \<Rightarrow> bool" where
  "conversation_invariant s =
     (list_all (\<lambda>c. user1_id c \<le> user2_id c) (conversations s) \<and>
      distinct (map (\<lambda>c. (user1_id c, user2_id c)) (conversations s)))"

text \<open>The number of conversation rows whose participants are exactly \<open>a\<close> and \<open>b\<close>.\<close>

definition pair_count :: "store \<Rightarrow> int \<Rightarrow> int \<Rightarrow> nat" where
  "pair_count s a b =
     length (filter (\<lambda>c. {user1_id c, user2_id c} = {a, b}) (conversations s))"

text \<open>
  Referential integrity of the chat tables: conversation keys are unique, and every
  message belongs to a conversation of the table.
\<close>

definition chat_integrity :: "store \<Rightarrow> bool" where
  "chat_integrity s =
     (distinct (map conv_id (conversations s)) \<and>
      list_all (\<lambda>m. conversation_id m \<in> set (map conv_id (conversations s))) (messages s))"

text \<open>
  The message a request appends to the conversation of the pair \<open>a\<close>, \<open>b\<close>: the content
  of a POST between the two (in either direction) whose body has the field, nothing
  otherwise.
\<close>

fun posted :: "int \<Rightarrow> int \<Rightarrow> request \<Rightarrow> json list" where
  "posted a b (Chat now meth current_user rcpt data) =
     (if meth = POST \<and> min current_user rcpt = min a b \<and> max current_user rcpt = max a b
      then (case data ''content'' of None \<Rightarrow> [] | Some txt \<Rightarrow> [txt])
      else [])"
| "posted a b (AllChats current_user) = []"

section \<open>The comment tree\<close>

text \<open>A node of the tree: the keys \<open>id\<close>, \<open>user\<close>, \<open>body\<close>, \<open>created_at\<close>, \<open>replies\<close>.\<close>

datatype node =
  Node (node_id: int) (node_user: string) (node_body: string) (node_created_at: nat)
       (node_replies: "node list")

text \<open>
  Modelled from the spec: the relationships \<open>comment.user\<close> (the author's row, if any)
  and \<open>comment.replies\<close> (the direct replies, in creation order) of \<open>models.Comment\<close>.
\<close>

definition comment_user :: "store \<Rightarrow> comment \<Rightarrow> user option" where
  "comment_user s c = get_user s (comment_user_id c)"

definition replies :: "store \<Rightarrow> comment \<Rightarrow> comment list" where
  "replies s c = filter (\<lambda>r. parent_comment_id r = Some (comment_id c)) (comments s)"

text \<open>A list comprehension over a function that may raise: the first exception ends it.\<close>

fun collect :: "('a \<Rightarrow> py_error + 'b) \<Rightarrow> 'a list \<Rightarrow> py_error + 'b list" where
  "collect f [] = Inr []"
| "collect f (x # xs) =
     (case f x of
        Inl e \<Rightarrow> Inl e
      | Inr y \<Rightarrow> (case collect f xs of Inl e \<Rightarrow> Inl e | Inr ys \<Rightarrow> Inr (y # ys)))"

text \<open>
  \<open>build_comment_tree\<close> (lines 313 to 320). The source recurses without a bound of its
  own; the interpreter's stack is the bound (1000 frames by default, the server's own
  among them), and the first argument is the number of nested calls it still admits: at
  none, the call raises \<open>RecursionError\<close>. The keys
  are evaluated in the order written, so a missing author raises before the replies are
  visited. The timestamp stands for its ISO rendering.
\<close>

fun build_comment_tree :: "nat \<Rightarrow> store \<Rightarrow> comment \<Rightarrow> py_error + node" where
  "build_comment_tree 0 s c = Inl RecursionError"
| "build_comment_tree (Suc depth) s c =
     (case comment_user s c of
        None \<Rightarrow> Inl (AttributeError ''username'')
      | Some u \<Rightarrow>
          (case collect (build_comment_tree depth s) (replies s c) of
             Inl e \<Rightarrow> Inl e
           | Inr kids \<Rightarrow> Inr (Node (comment_id c) (username u) (body c) (created_at c) kids)))"

text \<open>
  Line 310: \<open>Comment.query.filter_by(content_id=content_id, parent_comment_id=None).all()\<close>.
\<close>

definition top_level :: "store \<Rightarrow> int \<Rightarrow> comment list" where
  "top_level s cid =
     filter (\<lambda>c. comment_content_id c = cid \<and> parent_comment_id c = None) (comments s)"

text \<open>\<open>get_threaded_comments\<close> (lines 307 to 311), with the stack bound as above.\<close>

definition get_threaded_comments :: "nat \<Rightarrow> store \<Rightarrow> int \<Rightarrow> py_error + node list" where
  "get_threaded_comments limit s cid = collect (build_comment_tree limit s) (top_level s cid)"

text \<open>
  What the tree has to be: a node represents a comment when it holds the comment's id,
  its author's name, its body and its timestamp, and its children represent the comment's
  direct replies, one for one and in the same order.
\<close>

fun represents :: "store \<Rightarrow> node \<Rightarrow> comment \<Rightarrow> bool"
  and represents_all :: "store \<Rightarrow> node list \<Rightarrow> comment list \<Rightarrow> bool" where
  "represents s (Node i u b t kids) c =
     (i = comment_id c \<and> map_option username (comment_user s c) = Some u \<and>
      b = body c \<and> t = created_at c \<and> represents_all s kids (replies s c))"
| "represents_all s [] cs = (cs = [])"
| "represents_all s (k # ks) cs =
     (case cs of [] \<Rightarrow> False | c # cs' \<Rightarrow> represents s k c \<and> represents_all s ks cs')"

text \<open>
  Every comment of the table has an author: the foreign key \<open>user_id\<close> points to a
  row of the user table.
\<close>

definition authors_known :: "store \<Rightarrow> bool" where
  "authors_known s = list_all (\<lambda>c. comment_user s c \<noteq> None) (comments s)"

text \<open>
  The depth of a thread: \<open>thread_fits d s c\<close> says that the thread that starts at the
  comment \<open>c\<close> (the comment, its replies, their replies, and so on) is at most \<open>d\<close>
  comments deep. A thread that runs into a cycle of parent links fits no depth.
\<close>

fun thread_fits :: "nat \<Rightarrow> store \<Rightarrow> comment \<Rightarrow> bool" where
  "thread_fits 0 s c = False"
| "thread_fits (Suc d) s c = list_all (thread_fits d s) (replies s c)"

section \<open>Posting a comment (snapshot of 27 April)\<close>

text \<open>
  The row that \<open>post_comment\<close> of \<open>app_20250427081731.py\<close> creates: the constructor
  call names the columns \<open>user_id\<close>, \<open>content_id\<close> and \<open>text\<close> and no other; the two
  taken from the body are stored as sent.
\<close>

record posted_comment =
  pc_id :: int
  pc_user_id :: int
  pc_content_id :: json
  pc_text :: json

text \<open>
  \<open>post_comment\<close> (lines 214 to 222), on the comment table. The body is read at the
  keys \<open>content_id\<close> and \<open>text\<close> only, in that order.
\<close>

definition post_comment ::
  "int \<Rightarrow> body \<Rightarrow> posted_comment list \<Rightarrow> posted_comment list \<times> (py_error + posted_comment \<times> nat)" where
  "post_comment current_user data tbl =
     (case data ''content_id'' of
        None \<Rightarrow> (tbl, Inl (KeyError ''content_id''))
      | Some cid \<Rightarrow>
          (case data ''text'' of
             None \<Rightarrow> (tbl, Inl (KeyError ''text''))
           | Some txt \<Rightarrow>
               let c = \<lparr>pc_id = fresh_id (map pc_id tbl),
                        pc_user_id = current_user,
                        pc_content_id = cid,
                        pc_text = txt\<rparr>
               in (tbl @ [c], Inr (c, 201))))"

text \<open>A store with two users and three connected channels, for the examples.\<close>

definition chat_example :: store where
  "chat_example =
     \<lparr>conversations = [], messages = [],
      users = [\<lparr>user_id = 1, username = ''alice'', profile_picture = None\<rparr>,
               \<lparr>user_id = 2, username = ''bob'', profile_picture = Some (Some ''bob.png'')\<rparr>],
      comments = [], connected = [7, 8, 9], delivered = []\<rparr>"

text \<open>
  What a GET of the pair \<open>a\<close>, \<open>b\<close> lists: nothing when the pair has no conversation
  (line 392), the contents of the conversation's messages otherwise (lines 422 and 423).
\<close>

definition chat_log :: "store \<Rightarrow> int \<Rightarrow> int \<Rightarrow> json list" where
  "chat_log s a b =
     (case find_conversation s (min a b) (max a b) of
        None \<Rightarrow> []
      | Some c \<Rightarrow> list_messages c s)"

text \<open>
  A thread of three comments on content 7: the second answers the first, the third the
  second.
\<close>

definition thread_example :: store where
  "thread_example =
     \<lparr>conversations = [], messages = [],
      users = [\<lparr>user_id = 1, username = ''alice'', profile_picture = None\<rparr>,
               \<lparr>user_id = 2, username = ''bob'', profile_picture = None\<rparr>],
      comments =
        [\<lparr>comment_id = 1, comment_content_id = 7, comment_user_id = 1, body = ''first'',
          created_at = 10, parent_comment_id = None\<rparr>,
         \<lparr>comment_id = 2, comment_content_id = 7, comment_user_id = 2, body = ''second'',
          created_at = 11, parent_comment_id = Some 1\<rparr>,
         \<lparr>comment_id = 3, comment_content_id = 7, comment_user_id = 1, body = ''third'',
          created_at = 12, parent_comment_id = Some 2\<rparr>],
      connected = [], delivered = []\<rparr>"

text \<open>
  A single thread of \<open>n\<close> comments on content 7, all by one user: comment 0 is the root
  and comment \<open>i + 1\<close> answers comment \<open>i\<close>.
\<close>

definition chain_comment :: "nat \<Rightarrow> comment" where
  "chain_comment i =
     \<lparr>comment_id = int i, comment_content_id = 7, comment_user_id = 1, body = ''reply'',
      created_at = i, parent_comment_id = (if i = 0 then None else Some (int i - 1))\<rparr>"

definition chain_store :: "nat \<Rightarrow> store" where
  "chain_store n =
     \<lparr>conversations = [], messages = [],
      users = [\<lparr>user_id = 1, username = ''alice'', profile_picture = None\<rparr>],
      comments = map chain_comment [0..<n],
      connected = [], delivered = []\<rparr>"

section \<open>Properties\<close>

subsection \<open>Auxiliary facts\<close>

lemma fresh_id_notin: "fresh_id ids \<notin> set ids"
proof
  assume "fresh_id ids \<in> set ids"
  then have "fresh_id ids \<le> Max (set (0 # ids))" by (intro Max_ge) auto
  then show False by (simp add: fresh_id_def)
qed

lemma load_global_emit: "load_global ''emit'' = Inl (NameError ''emit'')"
  by (simp add: load_global_def module_globals_def)

lemma find_append':
  "find P (xs @ ys) = (case find P xs of None \<Rightarrow> find P ys | Some x \<Rightarrow> Some x)"
  by (induction xs) auto

lemma find_conversation_append:
  "find_conversation (s\<lparr>conversations := conversations s @ [c]\<rparr>) u1 u2 =
     (case find_conversation s u1 u2 of
        Some d \<Rightarrow> Some d
      | None \<Rightarrow> if user1_id c = u1 \<and> user2_id c = u2 then Some c else None)"
  by (simp add: find_conversation_def find_append' split: option.splits)

lemma resolve_conversation_commute:
  "resolve_conversation meth a b s = resolve_conversation meth b a s"
  unfolding resolve_conversation_def min.commute [of a b] max.commute [of a b] by (rule refl)

lemma resolve_conversation_again:
  "resolve_conversation meth' a b (fst (resolve_conversation POST a b s)) =
     resolve_conversation POST a b s"
  by (simp add: resolve_conversation_def Let_def find_conversation_append split: option.splits)

subsection \<open>Conversations\<close>

text \<open>
  C1. Canonicalization symmetry: resolving the conversation of the pair gives the same
  result whichever of the two users is the caller, from the same store; and once a POST
  by \<open>a\<close> to \<open>b\<close> has resolved (or created) the conversation, a request by \<open>b\<close> to \<open>a\<close>
  resolves to that very row and adds none.
\<close>

theorem canonicalization_symmetry:
  "resolve_conversation meth a b s = resolve_conversation meth b a s \<and>
   snd (resolve_conversation meth' b a (fst (resolve_conversation POST a b s))) =
     snd (resolve_conversation POST a b s) \<and>
   fst (resolve_conversation meth' b a (fst (resolve_conversation POST a b s))) =
     fst (resolve_conversation POST a b s) \<and>
   snd (resolve_conversation POST a b s) \<noteq> None"
proof -
  have "resolve_conversation meth' b a (fst (resolve_conversation POST a b s)) =
          resolve_conversation POST a b s"
    using resolve_conversation_again [of meth' a b s]
    by (simp add: resolve_conversation_commute [of meth' b a])
  moreover have "snd (resolve_conversation POST a b s) \<noteq> None"
    by (simp add: resolve_conversation_def Let_def split: option.splits)
  ultimately show ?thesis
    using resolve_conversation_commute [of meth a b s] by simp
qed

lemma handle_chat_GET:
  "handle_chat now GET a b d s =
     (s, Inr (Contents (case find_conversation s (min a b) (max a b) of
                          None \<Rightarrow> [] | Some c \<Rightarrow> list_messages c s), 200))"
  by (simp add: handle_chat_def resolve_conversation_def split: option.splits)

lemma post_message_tables:
  "conversations (fst (post_message now a b d c s)) = conversations s"
  "users (fst (post_message now a b d c s)) = users s"
  "comments (fst (post_message now a b d c s)) = comments s"
  "connected (fst (post_message now a b d c s)) = connected s"
  "delivered (fst (post_message now a b d c s)) = delivered s"
  by (simp_all add: post_message_def Let_def load_global_emit split: option.splits)

lemma post_message_None:
  "d ''content'' = None \<Longrightarrow> post_message now a b d c s = (s, Inl (KeyError ''content''))"
  by (simp add: post_message_def)

lemma post_message_Some:
  "d ''content'' = Some t \<Longrightarrow>
   post_message now a b d c s =
     (s\<lparr>messages := messages s @
          [\<lparr>message_id = fresh_id (map message_id (messages s)), conversation_id = conv_id c,
            sender_id = a, recipient_id = b, content = t, timestamp = now\<rparr>]\<rparr>,
      Inl (NameError ''emit''))"
  by (simp add: post_message_def Let_def load_global_emit)

lemma handle_chat_POST:
  "handle_chat now POST a b d s =
     (case resolve_conversation POST a b s of
        (s1, None) \<Rightarrow> (s1, Inr (Contents [], 200))
      | (s1, Some c) \<Rightarrow> post_message now a b d c s1)"
  by (simp add: handle_chat_def split: prod.splits option.splits)

lemma resolve_POST_None:
  "find_conversation s (min a b) (max a b) = None \<Longrightarrow>
   resolve_conversation POST a b s =
     (s\<lparr>conversations := conversations s @
          [\<lparr>conv_id = fresh_id (map conv_id (conversations s)),
            user1_id = min a b, user2_id = max a b\<rparr>]\<rparr>,
      Some \<lparr>conv_id = fresh_id (map conv_id (conversations s)),
            user1_id = min a b, user2_id = max a b\<rparr>)"
  by (simp add: resolve_conversation_def Let_def)

lemma resolve_Some:
  "find_conversation s (min a b) (max a b) = Some c \<Longrightarrow>
   resolve_conversation meth a b s = (s, Some c)"
  by (simp add: resolve_conversation_def)

text \<open>
  C4. Read never creates, and an empty read is no error: a GET leaves the store as it
  was; for a pair with no conversation row, and for a conversation with no message, it
  answers the empty list with status 200.
\<close>

theorem read_never_creates:
  "fst (handle_chat now GET a b d s) = s \<and>
   (find_conversation s (min a b) (max a b) = None \<longrightarrow>
      handle_chat now GET a b d s = (s, Inr (Contents [], 200))) \<and>
   (find_conversation s (min a b) (max a b) = Some c \<and>
    filter (\<lambda>m. conversation_id m = conv_id c) (messages s) = [] \<longrightarrow>
      handle_chat now GET a b d s = (s, Inr (Contents [], 200)))"
  by (simp add: handle_chat_GET list_messages_def)

theorem read_never_creates_witness:
  "find_conversation empty_store (min 1 2) (max 1 2) = None \<and>
   handle_chat 0 GET 1 2 Map.empty empty_store = (empty_store, Inr (Contents [], 200)) \<and>
   find_conversation
     (empty_store\<lparr>conversations := [\<lparr>conv_id = 1, user1_id = 1, user2_id = 2\<rparr>]\<rparr>)
     (min 2 1) (max 2 1) = Some \<lparr>conv_id = 1, user1_id = 1, user2_id = 2\<rparr> \<and>
   handle_chat 0 GET 2 1 Map.empty
     (empty_store\<lparr>conversations := [\<lparr>conv_id = 1, user1_id = 1, user2_id = 2\<rparr>]\<rparr>) =
     (empty_store\<lparr>conversations := [\<lparr>conv_id = 1, user1_id = 1, user2_id = 2\<rparr>]\<rparr>,
      Inr (Contents [], 200))"
  using read_never_creates [where now = 0 and a = 1 and b = 2 and d = Map.empty
          and s = empty_store]
        read_never_creates [where now = 0 and a = 2 and b = 1 and d = Map.empty
          and s = "empty_store\<lparr>conversations := [\<lparr>conv_id = 1, user1_id = 1, user2_id = 2\<rparr>]\<rparr>"
          and c = "\<lparr>conv_id = 1, user1_id = 1, user2_id = 2\<rparr>"]
  by (simp add: find_conversation_def empty_store_def)

text \<open>
  C3, as the code has it. \<open>handle_chat\<close> has no check that the caller and the
  recipient differ. At the input below a user posts to themselves and the row (1, 1) is
  created.
\<close>

theorem self_conversation_counterexample:
  "conversations (fst (handle_chat 0 POST 1 1 [''content'' \<mapsto> JStr ''hi''] empty_store)) =
     [\<lparr>conv_id = 1, user1_id = 1, user2_id = 1\<rparr>] \<and>
   conversations (fst (handle_chat 0 POST 1 1 [''content'' \<mapsto> JStr ''hi''] empty_store)) \<noteq>
     conversations empty_store"
  by (simp add: handle_chat_POST resolve_conversation_def find_conversation_def empty_store_def
      post_message_tables fresh_id_def Let_def)

text \<open>
  C3, amended. A post of a user \<open>U\<close> to themselves is treated like any other pair:
  when no conversation (U, U) exists, the row (U, U) is created, and when the body has
  the field \<open>content\<close> a message from \<open>U\<close> to \<open>U\<close> is appended to it.
\<close>

theorem self_conversation_created:
  assumes "find_conversation s U U = None"
  shows "conversations (fst (handle_chat now POST U U d s)) =
           conversations s @
             [\<lparr>conv_id = fresh_id (map conv_id (conversations s)), user1_id = U, user2_id = U\<rparr>] \<and>
         (d ''content'' = Some t \<longrightarrow>
            messages (fst (handle_chat now POST U U d s)) =
              messages s @
                [\<lparr>message_id = fresh_id (map message_id (messages s)),
                  conversation_id = fresh_id (map conv_id (conversations s)),
                  sender_id = U, recipient_id = U, content = t, timestamp = now\<rparr>])"
  using assms resolve_POST_None [of s U U]
  by (simp add: handle_chat_POST post_message_tables post_message_Some)

theorem self_conversation_created_witness:
  "find_conversation empty_store 1 1 = None \<and>
   conversations (fst (handle_chat 5 POST 1 1 [''content'' \<mapsto> JStr ''note''] empty_store)) =
     [\<lparr>conv_id = 1, user1_id = 1, user2_id = 1\<rparr>] \<and>
   messages (fst (handle_chat 5 POST 1 1 [''content'' \<mapsto> JStr ''note''] empty_store)) =
     [\<lparr>message_id = 1, conversation_id = 1, sender_id = 1, recipient_id = 1,
       content = JStr ''note'', timestamp = 5\<rparr>]"
  using self_conversation_created [where s = empty_store and U = 1 and now = 5
          and d = "[''content'' \<mapsto> JStr ''note'']" and t = "JStr ''note''"]
  by (simp add: find_conversation_def empty_store_def fresh_id_def)

text \<open>
  C9, at a failing input. User 1 posts to user 2 while three channels are connected. The
  message is committed, then the call of the unbound name \<open>emit\<close> raises: no event
  reaches any channel.
\<close>

theorem new_chat_event_not_delivered:
  "handle_chat 100 POST 1 2 [''content'' \<mapsto> JStr ''hi''] chat_example =
     (chat_example
        \<lparr>conversations := [\<lparr>conv_id = 1, user1_id = 1, user2_id = 2\<rparr>],
         messages := [\<lparr>message_id = 1, conversation_id = 1, sender_id = 1, recipient_id = 2,
                       content = JStr ''hi'', timestamp = 100\<rparr>]\<rparr>,
      Inl (NameError ''emit'')) \<and>
   connected chat_example = [7, 8, 9] \<and>
   delivered (fst (handle_chat 100 POST 1 2 [''content'' \<mapsto> JStr ''hi''] chat_example)) = []"
  by (simp add: handle_chat_POST resolve_conversation_def find_conversation_def chat_example_def
      post_message_Some fresh_id_def Let_def)

lemma find_Some_holds: "find P xs = Some x \<Longrightarrow> P x \<and> x \<in> set xs"
  by (induction xs) (auto split: if_splits)

lemma find_conversation_Some:
  "find_conversation s u1 u2 = Some c \<Longrightarrow>
     user1_id c = u1 \<and> user2_id c = u2 \<and> c \<in> set (conversations s)"
  using find_Some_holds [of "\<lambda>c. user1_id c = u1 \<and> user2_id c = u2" "conversations s" c]
  by (simp add: find_conversation_def)

lemma find_conversation_None:
  "find_conversation s u1 u2 = None \<Longrightarrow> (u1, u2) \<notin> set (map (\<lambda>c. (user1_id c, user2_id c)) (conversations s))"
  by (auto simp: find_conversation_def find_None_iff)

lemma find_conversation_messages [simp]:
  "find_conversation (s\<lparr>messages := ms\<rparr>) u1 u2 = find_conversation s u1 u2"
  by (simp add: find_conversation_def)

lemma no_message_of_fresh_conversation:
  "chat_integrity s \<Longrightarrow>
   filter (\<lambda>m. conversation_id m = fresh_id (map conv_id (conversations s))) (messages s) = []"
proof -
  assume a: "chat_integrity s"
  have "conversation_id m \<noteq> fresh_id (map conv_id (conversations s))"
    if "m \<in> set (messages s)" for m
  proof -
    from a that have "conversation_id m \<in> set (map conv_id (conversations s))"
      by (simp add: chat_integrity_def list_all_iff)
    then show ?thesis using fresh_id_notin [of "map conv_id (conversations s)"] by metis
  qed
  then show ?thesis by (simp add: filter_empty_conv)
qed

text \<open>
  C6, as the code has it. A POST of user 1 to user 2 whose body has no field
  \<open>content\<close>, on the empty store: the conversation row is committed at line 390, then
  \<open>data['content']\<close> raises and the route answers 500. The request ended in an error
  and left a new Conversation row behind.
\<close>

theorem error_after_commit_counterexample:
  "serve_chat 0 POST 1 2 Map.empty empty_store =
     (empty_store\<lparr>conversations := [\<lparr>conv_id = 1, user1_id = 1, user2_id = 2\<rparr>]\<rparr>,
      (ErrorReply (KeyError ''content''), 500)) \<and>
   fst (serve_chat 0 POST 1 2 Map.empty empty_store) \<noteq> empty_store"
  by (simp add: serve_chat_def handle_chat_POST resolve_conversation_def find_conversation_def
      empty_store_def post_message_None fresh_id_def Let_def handle_exception_def)

text \<open>
  C6, amended. A GET never ends in an error and never changes the store. A request that
  ends in the error of the missing body field creates no message and delivers no event;
  it leaves the store unchanged when the pair's conversation existed, and otherwise with
  exactly one new row, the pair's canonical conversation, committed before the body was
  read.
\<close>

theorem missing_content_keeps_messages:
  "(meth = GET \<longrightarrow>
      fst (handle_chat now meth a b d s) = s \<and> snd (handle_chat now meth a b d s) \<noteq> Inl e) \<and>
   (snd (handle_chat now meth a b d s) = Inl (KeyError k) \<longrightarrow>
      messages (fst (handle_chat now meth a b d s)) = messages s \<and>
      delivered (fst (handle_chat now meth a b d s)) = delivered s \<and>
      (find_conversation s (min a b) (max a b) \<noteq> None \<longrightarrow>
         fst (handle_chat now meth a b d s) = s) \<and>
      (find_conversation s (min a b) (max a b) = None \<longrightarrow>
         fst (handle_chat now meth a b d s) =
           s\<lparr>conversations := conversations s @
               [\<lparr>conv_id = fresh_id (map conv_id (conversations s)),
                 user1_id = min a b, user2_id = max a b\<rparr>]\<rparr>))"
proof (cases meth)
  case GET
  then show ?thesis by (simp add: handle_chat_GET)
next
  case POST
  let ?s1 = "s\<lparr>conversations := conversations s @
               [\<lparr>conv_id = fresh_id (map conv_id (conversations s)),
                 user1_id = min a b, user2_id = max a b\<rparr>]\<rparr>"
  show ?thesis
  proof (cases "d ''content''")
    case None
    show ?thesis
    proof (cases "find_conversation s (min a b) (max a b)")
      case N: None
      have "handle_chat now meth a b d s = (?s1, Inl (KeyError ''content''))"
        using POST None N by (simp add: handle_chat_POST resolve_POST_None post_message_None)
      then show ?thesis using POST N by simp
    next
      case (Some c)
      have "handle_chat now meth a b d s = (s, Inl (KeyError ''content''))"
        using POST None Some by (simp add: handle_chat_POST resolve_Some post_message_None)
      then show ?thesis using POST Some by simp
    qed
  next
    case (Some t)
    have "snd (handle_chat now meth a b d s) = Inl (NameError ''emit'')"
      using POST Some
      by (cases "find_conversation s (min a b) (max a b)")
         (simp_all add: handle_chat_POST resolve_POST_None resolve_Some post_message_Some)
    then show ?thesis using POST by simp
  qed
qed

theorem missing_content_keeps_messages_witness:
  "snd (handle_chat 3 POST 2 1 Map.empty chat_example) = Inl (KeyError ''content'') \<and>
   find_conversation chat_example (min 2 1) (max 2 1) = None \<and>
   messages (fst (handle_chat 3 POST 2 1 Map.empty chat_example)) = [] \<and>
   fst (handle_chat 3 POST 2 1 Map.empty chat_example) =
     chat_example\<lparr>conversations := [\<lparr>conv_id = 1, user1_id = 1, user2_id = 2\<rparr>]\<rparr> \<and>
   fst (handle_chat 3 GET 2 1 Map.empty chat_example) = chat_example"
  using missing_content_keeps_messages [where meth = POST and now = 3 and a = 2 and b = 1
          and d = Map.empty and s = chat_example and k = "''content''"]
        missing_content_keeps_messages [where meth = GET and now = 3 and a = 2 and b = 1
          and d = Map.empty and s = chat_example]
  by (simp add: handle_chat_POST resolve_conversation_def find_conversation_def chat_example_def
      post_message_None fresh_id_def Let_def)

text \<open>
  C10, as the code has it. A POST of user 3 to user 5 whose body has no field
  \<open>content\<close> creates the conversation and no message: a write has created an empty
  conversation, and listing it gives the empty list.
\<close>

theorem empty_conversation_counterexample:
  "conversations (fst (handle_chat 0 POST 3 5 [''text'' \<mapsto> JStr ''hi''] empty_store)) =
     [\<lparr>conv_id = 1, user1_id = 3, user2_id = 5\<rparr>] \<and>
   messages (fst (handle_chat 0 POST 3 5 [''text'' \<mapsto> JStr ''hi''] empty_store)) = [] \<and>
   handle_chat 1 GET 3 5 Map.empty
     (fst (handle_chat 0 POST 3 5 [''text'' \<mapsto> JStr ''hi''] empty_store)) =
     (fst (handle_chat 0 POST 3 5 [''text'' \<mapsto> JStr ''hi''] empty_store),
      Inr (Contents [], 200))"
  by (simp add: handle_chat_POST handle_chat_GET resolve_conversation_def find_conversation_def
      empty_store_def post_message_None fresh_id_def Let_def list_messages_def)

text \<open>
  C10, amended. For a pair with no conversation, one POST whose body has the field
  \<open>content\<close> both creates the canonical conversation and appends the message, and a
  GET of the pair (by either user) right afterwards lists exactly that one content.
\<close>

theorem fused_create_and_append:
  assumes "find_conversation s (min a b) (max a b) = None"
    and "d ''content'' = Some t"
    and "chat_integrity s"
  shows "conversations (fst (handle_chat now POST a b d s)) =
           conversations s @
             [\<lparr>conv_id = fresh_id (map conv_id (conversations s)),
               user1_id = min a b, user2_id = max a b\<rparr>] \<and>
         messages (fst (handle_chat now POST a b d s)) =
           messages s @
             [\<lparr>message_id = fresh_id (map message_id (messages s)),
               conversation_id = fresh_id (map conv_id (conversations s)),
               sender_id = a, recipient_id = b, content = t, timestamp = now\<rparr>] \<and>
         snd (handle_chat now' GET a b d' (fst (handle_chat now POST a b d s))) =
           Inr (Contents [t], 200) \<and>
         snd (handle_chat now' GET b a d' (fst (handle_chat now POST a b d s))) =
           Inr (Contents [t], 200)"
proof -
  let ?c = "\<lparr>conv_id = fresh_id (map conv_id (conversations s)),
             user1_id = min a b, user2_id = max a b\<rparr>"
  let ?m = "\<lparr>message_id = fresh_id (map message_id (messages s)),
             conversation_id = fresh_id (map conv_id (conversations s)),
             sender_id = a, recipient_id = b, content = t, timestamp = now\<rparr>"
  let ?s1 = "s\<lparr>conversations := conversations s @ [?c]\<rparr>"
  let ?s2 = "?s1\<lparr>messages := messages s @ [?m]\<rparr>"
  have post: "fst (handle_chat now POST a b d s) = ?s2"
    using assms(1,2) by (simp add: handle_chat_POST resolve_POST_None post_message_Some)
  have found: "find_conversation ?s2 (min a b) (max a b) = Some ?c"
    using assms(1) by (simp add: find_conversation_append)
  have log: "list_messages ?c ?s2 = [t]"
    using no_message_of_fresh_conversation [OF assms(3)] by (simp add: list_messages_def)
  have "snd (handle_chat now' GET a b d' ?s2) = Inr (Contents [t], 200)"
    using found log by (simp add: handle_chat_GET)
  moreover have "snd (handle_chat now' GET b a d' ?s2) = Inr (Contents [t], 200)"
    using found log by (simp add: handle_chat_GET min.commute [of b a] max.commute [of b a])
  ultimately show ?thesis by (simp add: post)
qed

theorem fused_create_and_append_witness:
  "find_conversation chat_example (min 2 1) (max 2 1) = None \<and>
   chat_integrity chat_example \<and>
   conversations (fst (handle_chat 4 POST 2 1 [''content'' \<mapsto> JStr ''hello''] chat_example)) =
     [\<lparr>conv_id = 1, user1_id = 1, user2_id = 2\<rparr>] \<and>
   messages (fst (handle_chat 4 POST 2 1 [''content'' \<mapsto> JStr ''hello''] chat_example)) =
     [\<lparr>message_id = 1, conversation_id = 1, sender_id = 2, recipient_id = 1,
       content = JStr ''hello'', timestamp = 4\<rparr>] \<and>
   snd (handle_chat 5 GET 1 2 Map.empty
          (fst (handle_chat 4 POST 2 1 [''content'' \<mapsto> JStr ''hello''] chat_example))) =
     Inr (Contents [JStr ''hello''], 200)"
  using fused_create_and_append [where s = chat_example and a = 2 and b = 1 and now = 4
          and d = "[''content'' \<mapsto> JStr ''hello'']" and t = "JStr ''hello''"
          and now' = 5 and d' = Map.empty]
  by (simp add: find_conversation_def chat_example_def chat_integrity_def fresh_id_def)

lemma conversations_post_message:
  "conversations (fst (post_message now a b d c s)) = conversations s"
  by (simp add: post_message_tables)

lemma conversations_handle_chat:
  "conversations (fst (handle_chat now meth a b d s)) =
     conversations (fst (resolve_conversation meth a b s))"
  by (cases "resolve_conversation meth a b s")
     (auto simp: handle_chat_def post_message_tables split: option.splits)

lemma conversations_step_Chat:
  "conversations (step (Chat now meth a b d) s) =
     conversations (fst (resolve_conversation meth a b s))"
  using conversations_handle_chat [of now meth a b d s]
  by (cases "handle_chat now meth a b d s") (auto simp: serve_chat_def split: sum.splits)

lemma invariant_resolve:
  assumes "conversation_invariant s"
  shows "conversation_invariant (fst (resolve_conversation meth a b s))"
proof (cases "find_conversation s (min a b) (max a b)")
  case None
  then show ?thesis
    using assms find_conversation_None [OF None]
    by (auto simp: resolve_conversation_def conversation_invariant_def Let_def)
next
  case (Some c)
  then show ?thesis using assms by (simp add: resolve_conversation_def)
qed

lemma invariant_step:
  assumes "conversation_invariant s"
  shows "conversation_invariant (step r s)"
proof (cases r)
  case (Chat now meth a b d)
  have "conversation_invariant (fst (resolve_conversation meth a b s))"
    using assms by (rule invariant_resolve)
  then show ?thesis
    using conversations_step_Chat [of now meth a b d s] Chat
    by (simp add: conversation_invariant_def)
next
  case (AllChats u)
  then show ?thesis using assms by (simp add: get_all_chats_def)
qed

lemma invariant_run: "conversation_invariant s \<Longrightarrow> conversation_invariant (run reqs s)"
  unfolding run_def by (induction reqs arbitrary: s) (simp_all add: invariant_step)

lemma filter_key_le_1: "distinct (map f xs) \<Longrightarrow> length (filter (\<lambda>x. f x = k) xs) \<le> Suc 0"
proof (induction xs)
  case Nil
  then show ?case by simp
next
  case (Cons x xs)
  show ?case
  proof (cases "f x = k")
    case True
    with Cons.prems have "\<forall>y\<in>set xs. f y \<noteq> k" by (metis distinct.simps(2) image_eqI list.simps(9) list.set_map)
    then have "filter (\<lambda>x. f x = k) xs = []" by (simp add: filter_empty_conv)
    with True show ?thesis by simp
  next
    case False
    with Cons show ?thesis by simp
  qed
qed

lemma ordered_pair_eq:
  "(u1::int) \<le> u2 \<Longrightarrow> ({u1, u2} = {a, b}) = ((u1, u2) = (min a b, max a b))"
  by (auto simp: doubleton_eq_iff min_def max_def)

lemma pair_count_le_1:
  assumes "conversation_invariant s"
  shows "pair_count s a b \<le> 1"
proof -
  have "filter (\<lambda>c. {user1_id c, user2_id c} = {a, b}) (conversations s) =
        filter (\<lambda>c. (user1_id c, user2_id c) = (min a b, max a b)) (conversations s)"
    using assms
    by (intro filter_cong refl ordered_pair_eq) (simp add: conversation_invariant_def list_all_iff)
  then show ?thesis
    using assms filter_key_le_1 [of "\<lambda>c. (user1_id c, user2_id c)" "conversations s" "(min a b, max a b)"]
    by (simp add: pair_count_def conversation_invariant_def)
qed

text \<open>
  C2. The invariant of the conversation table: from a store in which every conversation
  row has its lower participant first and no pair occurs twice (the empty store is one),
  every sequence of chat requests served one after the other leads to such a store again:
  every row satisfies \<open>user1_id \<le> user2_id\<close>, and for any two users at most one row
  has exactly them as participants.
\<close>

theorem conversation_store_invariant:
  assumes "conversation_invariant s"
  shows "conversation_invariant (run reqs s) \<and>
         (\<forall>c \<in> set (conversations (run reqs s)). user1_id c \<le> user2_id c) \<and>
         (\<forall>a b. pair_count (run reqs s) a b \<le> 1)"
  using invariant_run [OF assms, of reqs] pair_count_le_1 [of "run reqs s"]
  by (simp add: conversation_invariant_def list_all_iff)

theorem conversation_store_invariant_witness:
  "conversation_invariant empty_store \<and>
   conversation_invariant
     (run [Chat 1 POST 2 1 [''content'' \<mapsto> JStr ''a''], Chat 2 POST 1 2 Map.empty,
           AllChats 1, Chat 3 GET 1 3 Map.empty, Chat 4 POST 3 3 Map.empty] empty_store) \<and>
   pair_count
     (run [Chat 1 POST 2 1 [''content'' \<mapsto> JStr ''a''], Chat 2 POST 1 2 Map.empty,
           AllChats 1, Chat 3 GET 1 3 Map.empty, Chat 4 POST 3 3 Map.empty] empty_store) 1 2 \<le> 1"
  using conversation_store_invariant [where s = empty_store and reqs =
          "[Chat 1 POST 2 1 [''content'' \<mapsto> JStr ''a''], Chat 2 POST 1 2 Map.empty,
            AllChats 1, Chat 3 GET 1 3 Map.empty, Chat 4 POST 3 3 Map.empty]"]
  by (simp add: conversation_invariant_def empty_store_def)

lemma handle_chat_GET_log:
  "handle_chat now GET a b d s = (s, Inr (Contents (chat_log s a b), 200))"
  by (simp add: handle_chat_GET chat_log_def)

lemma list_messages_conversations:
  "list_messages c (s\<lparr>conversations := cs\<rparr>) = list_messages c s"
  by (simp add: list_messages_def)

lemma integrity_resolve:
  assumes "chat_integrity s"
  shows "chat_integrity (fst (resolve_conversation meth a b s))"
proof (cases "find_conversation s (min a b) (max a b)")
  case None
  then show ?thesis
    using assms fresh_id_notin [of "map conv_id (conversations s)"]
    by (auto simp: resolve_conversation_def chat_integrity_def Let_def list_all_iff)
next
  case (Some c)
  then show ?thesis using assms by (simp add: resolve_conversation_def)
qed

lemma integrity_post:
  assumes "chat_integrity s" and "c \<in> set (conversations s)"
  shows "chat_integrity (fst (post_message now a b d c s))"
proof (cases "d ''content''")
  case None
  then show ?thesis using assms by (simp add: post_message_None)
next
  case (Some t)
  then show ?thesis using assms
    by (auto simp: post_message_Some chat_integrity_def list_all_iff)
qed

lemma resolve_found:
  "resolve_conversation meth a b s = (s1, Some c) \<Longrightarrow>
     find_conversation s1 (min a b) (max a b) = Some c"
  by (auto simp: resolve_conversation_def Let_def find_conversation_append
           split: option.splits if_splits)

lemma resolve_not_found:
  "resolve_conversation meth a b s = (s1, None) \<Longrightarrow> s1 = s"
  by (auto simp: resolve_conversation_def Let_def split: option.splits if_splits)

lemma chat_log_resolve:
  assumes "chat_integrity s"
  shows "chat_log (fst (resolve_conversation meth a b s)) x y = chat_log s x y"
proof (cases "find_conversation s (min a b) (max a b)")
  case None
  show ?thesis
  proof (cases "meth = POST")
    case True
    let ?c = "\<lparr>conv_id = fresh_id (map conv_id (conversations s)),
               user1_id = min a b, user2_id = max a b\<rparr>"
    have s1: "fst (resolve_conversation meth a b s) = s\<lparr>conversations := conversations s @ [?c]\<rparr>"
      using None True by (simp add: resolve_POST_None)
    have empty: "list_messages c s = []"
      if "conv_id c = fresh_id (map conv_id (conversations s))" for c
      using no_message_of_fresh_conversation [OF assms] that by (simp add: list_messages_def)
    show ?thesis
      unfolding s1 chat_log_def find_conversation_append
      by (auto simp: empty list_messages_conversations split: option.splits)
  next
    case False
    then show ?thesis using None by (simp add: resolve_conversation_def)
  qed
next
  case (Some c)
  then show ?thesis by (simp add: resolve_conversation_def)
qed

lemma conv_id_inj:
  assumes "chat_integrity s" and "c \<in> set (conversations s)" and "c' \<in> set (conversations s)"
    and "conv_id c = conv_id c'"
  shows "c = c'"
  using assms by (auto simp: chat_integrity_def distinct_map inj_on_def)

lemma chat_log_post:
  assumes "chat_integrity s" and "find_conversation s (min a b) (max a b) = Some c"
  shows "chat_log (fst (post_message now a b d c s)) x y =
           chat_log s x y @
             (if min a b = min x y \<and> max a b = max x y
              then (case d ''content'' of None \<Rightarrow> [] | Some t \<Rightarrow> [t]) else [])"
proof (cases "d ''content''")
  case None
  then show ?thesis by (simp add: post_message_None)
next
  case (Some t)
  let ?m = "\<lparr>message_id = fresh_id (map message_id (messages s)), conversation_id = conv_id c,
             sender_id = a, recipient_id = b, content = t, timestamp = now\<rparr>"
  have s2: "fst (post_message now a b d c s) = s\<lparr>messages := messages s @ [?m]\<rparr>"
    using Some by (simp add: post_message_Some)
  note c = find_conversation_Some [OF assms(2)]
  show ?thesis
  proof (cases "find_conversation s (min x y) (max x y)")
    case None
    then have "\<not> (min a b = min x y \<and> max a b = max x y)" using assms(2) by auto
    then show ?thesis using None by (auto simp: s2 chat_log_def)
  next
    case S: (Some c')
    note c' = find_conversation_Some [OF S]
    have "(conv_id c = conv_id c') = (min a b = min x y \<and> max a b = max x y)"
    proof
      assume "conv_id c = conv_id c'"
      then have "c = c'" using conv_id_inj [OF assms(1)] c c' by blast
      then show "min a b = min x y \<and> max a b = max x y" using c c' by auto
    next
      assume "min a b = min x y \<and> max a b = max x y"
      then show "conv_id c = conv_id c'" using assms(2) S by simp
    qed
    then show ?thesis using S Some by (simp add: s2 chat_log_def list_messages_def)
  qed
qed

lemma handle_chat_store:
  "fst (handle_chat now meth a b d s) =
     (case resolve_conversation meth a b s of
        (s1, None) \<Rightarrow> s1
      | (s1, Some c) \<Rightarrow> if meth = POST then fst (post_message now a b d c s1) else s1)"
  by (simp add: handle_chat_def split: prod.splits option.splits)

lemma step_Chat: "fst (serve_chat now meth a b d s) = fst (handle_chat now meth a b d s)"
  by (cases "handle_chat now meth a b d s") (auto simp: serve_chat_def split: sum.splits)

lemma chat_step:
  assumes "chat_integrity s"
  shows "chat_integrity (step r s) \<and> chat_log (step r s) x y = chat_log s x y @ posted x y r"
proof (cases r)
  case (AllChats u)
  then show ?thesis using assms by (simp add: get_all_chats_def)
next
  case (Chat now meth a b d)
  obtain s1 oc where r: "resolve_conversation meth a b s = (s1, oc)"
    by (cases "resolve_conversation meth a b s")
  have i1: "chat_integrity s1" using integrity_resolve [OF assms, of meth a b] r by simp
  have l1: "chat_log s1 x y = chat_log s x y" using chat_log_resolve [OF assms, of meth a b] r by simp
  show ?thesis
  proof (cases oc)
    case None
    then have "s1 = s" "meth \<noteq> POST" using r
      by (auto simp: resolve_conversation_def Let_def split: option.splits if_splits)
    then show ?thesis using Chat None r assms by (simp add: step_Chat handle_chat_store)
  next
    case (Some c)
    have f: "find_conversation s1 (min a b) (max a b) = Some c"
      using r Some resolve_found by simp
    show ?thesis
    proof (cases "meth = POST")
      case True
      have "chat_integrity (fst (post_message now a b d c s1))"
        using integrity_post [OF i1] find_conversation_Some [OF f] by simp
      moreover have "chat_log (fst (post_message now a b d c s1)) x y =
                       chat_log s x y @ posted x y r"
        using chat_log_post [OF i1 f, of now d x y] l1 True Chat by simp
      ultimately show ?thesis using Chat Some r True by (simp add: step_Chat handle_chat_store)
    next
      case False
      then show ?thesis using Chat Some r i1 l1 by (simp add: step_Chat handle_chat_store)
    qed
  qed
qed

lemma chat_run:
  "chat_integrity s \<Longrightarrow>
   chat_integrity (run reqs s) \<and>
   chat_log (run reqs s) x y = chat_log s x y @ concat (map (posted x y) reqs)"
proof (induction reqs arbitrary: s)
  case Nil
  then show ?case by (simp add: run_def)
next
  case (Cons r reqs)
  have "run (r # reqs) s = run reqs (step r s)" by (simp add: run_def)
  then show ?case using Cons.IH [of "step r s"] chat_step [OF Cons.prems, of r x y] by simp
qed

text \<open>
  C5. Order preservation: in a store whose chat tables are consistent, let a GET of the
  pair list \<open>old\<close>. After any sequence of requests served one after the other, a
  GET of the pair lists \<open>old\<close> followed by the contents of the messages that the
  sequence posted between the two users, in exactly the order of the posts, the latest
  last; requests of other pairs in between change nothing of it.
\<close>

theorem order_preservation:
  assumes "chat_integrity s"
    and "handle_chat now GET a b d s = (s, Inr (Contents old, 200))"
  shows "handle_chat now' GET a b d' (run reqs s) =
           (run reqs s, Inr (Contents (old @ concat (map (posted a b) reqs)), 200))"
  using assms chat_run [OF assms(1), of reqs a b] by (simp add: handle_chat_GET_log)

theorem order_preservation_witness:
  "chat_integrity empty_store \<and>
   handle_chat 0 GET 2 1 Map.empty empty_store = (empty_store, Inr (Contents [], 200)) \<and>
   snd (handle_chat 9 GET 2 1 Map.empty
          (run [Chat 1 POST 1 2 [''content'' \<mapsto> JStr ''a''],
                Chat 2 POST 2 1 [''content'' \<mapsto> JStr ''b''],
                Chat 3 POST 1 3 [''content'' \<mapsto> JStr ''x''],
                Chat 4 POST 1 2 [''content'' \<mapsto> JStr ''c'']] empty_store)) =
     Inr (Contents [JStr ''a'', JStr ''b'', JStr ''c''], 200)"
  using order_preservation [where s = empty_store and now = 0 and a = 2 and b = 1
          and d = Map.empty and old = "[]" and now' = 9 and d' = Map.empty and reqs =
          "[Chat 1 POST 1 2 [''content'' \<mapsto> JStr ''a''],
            Chat 2 POST 2 1 [''content'' \<mapsto> JStr ''b''],
            Chat 3 POST 1 3 [''content'' \<mapsto> JStr ''x''],
            Chat 4 POST 1 2 [''content'' \<mapsto> JStr ''c'']]"]
  by (simp add: chat_integrity_def empty_store_def handle_chat_GET find_conversation_def)

subsection \<open>Comments\<close>

lemma collect_represents:
  "collect f xs = Inr ys \<Longrightarrow>
   (\<And>x y. x \<in> set xs \<Longrightarrow> f x = Inr y \<Longrightarrow> represents s y x) \<Longrightarrow>
   represents_all s ys xs"
  by (induction xs arbitrary: ys) (auto split: sum.splits)

lemma build_represents: "build_comment_tree depth s c = Inr n \<Longrightarrow> represents s n c"
proof (induction depth arbitrary: c n)
  case 0
  then show ?case by simp
next
  case (Suc depth)
  from Suc.prems obtain u kids where
    u: "comment_user s c = Some u" and
    kids: "collect (build_comment_tree depth s) (replies s c) = Inr kids" and
    n: "n = Node (comment_id c) (username u) (body c) (created_at c) kids"
    by (auto split: option.splits sum.splits)
  have "represents_all s kids (replies s c)"
    using kids Suc.IH by (rule collect_represents)
  then show ?case using u n by simp
qed

lemma collect_total:
  "(\<And>x. x \<in> set xs \<Longrightarrow> \<exists>y. f x = Inr y) \<Longrightarrow> \<exists>ys. collect f xs = Inr ys"
proof (induction xs)
  case Nil
  then show ?case by simp
next
  case (Cons x xs)
  obtain y where "f x = Inr y" using Cons.prems [of x] by auto
  moreover obtain ys where "collect f xs = Inr ys" using Cons by auto
  ultimately show ?case by simp
qed

lemma collect_error:
  "(\<And>x. x \<in> set xs \<Longrightarrow> (\<exists>y. f x = Inr y) \<or> f x = Inl e) \<Longrightarrow>
   \<exists>x \<in> set xs. f x = Inl e \<Longrightarrow> collect f xs = Inl e"
proof (induction xs)
  case Nil
  then show ?case by simp
next
  case (Cons x xs)
  show ?case
  proof (cases "f x")
    case (Inl e')
    then have "e' = e" using Cons.prems(1) [of x] by auto
    with Inl show ?thesis by simp
  next
    case (Inr y)
    then have "\<exists>x \<in> set xs. f x = Inl e" using Cons.prems(2) by auto
    then have "collect f xs = Inl e" using Cons.IH Cons.prems(1) by simp
    with Inr show ?thesis by simp
  qed
qed

lemma reply_in_table: "r \<in> set (replies s c) \<Longrightarrow> r \<in> set (comments s)"
  by (simp add: replies_def)

lemma author_of:
  "authors_known s \<Longrightarrow> c \<in> set (comments s) \<Longrightarrow> \<exists>u. comment_user s c = Some u"
  by (auto simp: authors_known_def list_all_iff)

lemma build_fits:
  assumes "authors_known s"
  shows "c \<in> set (comments s) \<Longrightarrow> thread_fits depth s c \<Longrightarrow>
         \<exists>n. build_comment_tree depth s c = Inr n"
proof (induction depth arbitrary: c)
  case 0
  then show ?case by simp
next
  case (Suc depth)
  obtain u where u: "comment_user s c = Some u"
    using author_of [OF assms Suc.prems(1)] by blast
  have "\<exists>n. build_comment_tree depth s r = Inr n" if "r \<in> set (replies s c)" for r
    using Suc.IH [of r] Suc.prems(2) that reply_in_table [OF that]
    by (simp add: list_all_iff)
  then obtain kids where "collect (build_comment_tree depth s) (replies s c) = Inr kids"
    using collect_total [of "replies s c" "build_comment_tree depth s"] by blast
  with u show ?case by simp
qed

lemma build_too_deep:
  assumes "authors_known s"
  shows "c \<in> set (comments s) \<Longrightarrow> \<not> thread_fits depth s c \<Longrightarrow>
         build_comment_tree depth s c = Inl RecursionError"
proof (induction depth arbitrary: c)
  case 0
  then show ?case by simp
next
  case (Suc depth)
  obtain u where u: "comment_user s c = Some u"
    using author_of [OF assms Suc.prems(1)] by blast
  have each: "(\<exists>n. build_comment_tree depth s r = Inr n) \<or>
              build_comment_tree depth s r = Inl RecursionError"
    if "r \<in> set (replies s c)" for r
    using Suc.IH [of r] build_fits [OF assms, of r depth] reply_in_table [OF that] by blast
  from Suc.prems(2) obtain r where r: "r \<in> set (replies s c)" "\<not> thread_fits depth s r"
    by (auto simp: list_all_iff)
  then have "build_comment_tree depth s r = Inl RecursionError"
    using Suc.IH [of r] reply_in_table by blast
  with r(1) have "\<exists>r \<in> set (replies s c). build_comment_tree depth s r = Inl RecursionError"
    by blast
  then have "collect (build_comment_tree depth s) (replies s c) = Inl RecursionError"
    using collect_error [of "replies s c" "build_comment_tree depth s" RecursionError] each
    by blast
  with u show ?case by simp
qed

lemma top_level_in_table: "c \<in> set (top_level s cid) \<Longrightarrow> c \<in> set (comments s)"
  by (simp add: top_level_def)

lemma threaded_returns:
  assumes "authors_known s" and "list_all (thread_fits limit s) (top_level s cid)"
  shows "\<exists>nodes. get_threaded_comments limit s cid = Inr nodes"
proof -
  have "\<exists>n. build_comment_tree limit s c = Inr n" if "c \<in> set (top_level s cid)" for c
    using build_fits [OF assms(1), of c limit] assms(2) that top_level_in_table [OF that]
    by (simp add: list_all_iff)
  then show ?thesis
    unfolding get_threaded_comments_def
    using collect_total [of "top_level s cid" "build_comment_tree limit s"] by blast
qed

lemma threaded_too_deep:
  assumes "authors_known s" and "\<not> list_all (thread_fits limit s) (top_level s cid)"
  shows "get_threaded_comments limit s cid = Inl RecursionError"
proof -
  have each: "(\<exists>n. build_comment_tree limit s c = Inr n) \<or>
              build_comment_tree limit s c = Inl RecursionError"
    if "c \<in> set (top_level s cid)" for c
    using build_fits [OF assms(1), of c limit] build_too_deep [OF assms(1), of c limit]
          top_level_in_table [OF that] by blast
  from assms(2) obtain c where c: "c \<in> set (top_level s cid)" "\<not> thread_fits limit s c"
    by (auto simp: list_all_iff)
  then have "build_comment_tree limit s c = Inl RecursionError"
    using build_too_deep [OF assms(1)] top_level_in_table by blast
  with c(1) have "\<exists>c \<in> set (top_level s cid). build_comment_tree limit s c = Inl RecursionError"
    by blast
  then show ?thesis
    unfolding get_threaded_comments_def
    using collect_error [of "top_level s cid" "build_comment_tree limit s" RecursionError] each
    by blast
qed

lemma chain_of_three:
  assumes cs: "comments s = [c1, c2, c3]"
    and ids: "distinct [comment_id c1, comment_id c2, comment_id c3]"
    and cid: "comment_content_id c1 = cid"
    and p1: "parent_comment_id c1 = None"
    and p2: "parent_comment_id c2 = Some (comment_id c1)"
    and p3: "parent_comment_id c3 = Some (comment_id c2)"
    and u1: "comment_user s c1 = Some u1"
    and u2: "comment_user s c2 = Some u2"
    and u3: "comment_user s c3 = Some u3"
    and limit: "3 \<le> limit"
  shows "get_threaded_comments limit s cid =
           Inr [Node (comment_id c1) (username u1) (body c1) (created_at c1)
                 [Node (comment_id c2) (username u2) (body c2) (created_at c2)
                   [Node (comment_id c3) (username u3) (body c3) (created_at c3) []]]]"
proof -
  have top: "top_level s cid = [c1]"
    using cs cid p1 p2 p3 by (simp add: top_level_def)
  have r1: "replies s c1 = [c2]" and r2: "replies s c2 = [c3]" and r3: "replies s c3 = []"
    using cs p1 p2 p3 ids by (auto simp: replies_def)
  from limit obtain k where k: "limit = Suc (Suc (Suc k))"
    by (metis Suc_le_D Suc_le_mono numeral_3_eq_3)
  show ?thesis
    by (simp add: get_threaded_comments_def top k r1 r2 r3 u1 u2 u3)
qed

lemma filter_upt_eq: "filter (\<lambda>j. j = k) [0..<n] = (if k < n then [k] else [])"
  by (induction n) auto

lemma chain_replies:
  "replies (chain_store n) (chain_comment i) =
     (if Suc i < n then [chain_comment (Suc i)] else [])"
proof -
  have "(parent_comment_id (chain_comment j) = Some (comment_id (chain_comment i))) = (j = Suc i)"
    for j by (auto simp: chain_comment_def)
  then have "replies (chain_store n) (chain_comment i) =
               map chain_comment (filter (\<lambda>j. j = Suc i) [0..<n])"
    by (simp add: replies_def chain_store_def filter_map o_def)
  then show ?thesis by (simp add: filter_upt_eq)
qed

lemma chain_top_level:
  "top_level (chain_store n) 7 = (if 0 < n then [chain_comment 0] else [])"
proof -
  have "(comment_content_id (chain_comment j) = 7 \<and> parent_comment_id (chain_comment j) = None)
          = (j = 0)" for j
    by (simp add: chain_comment_def)
  then have "top_level (chain_store n) 7 = map chain_comment (filter (\<lambda>j. j = 0) [0..<n])"
    by (simp add: top_level_def chain_store_def filter_map o_def)
  then show ?thesis by (simp add: filter_upt_eq)
qed

lemma chain_user:
  "comment_user (chain_store n) (chain_comment i) =
     Some \<lparr>user_id = 1, username = ''alice'', profile_picture = None\<rparr>"
  by (simp add: comment_user_def get_user_def chain_store_def chain_comment_def)

lemma chain_too_deep:
  "i + depth < n \<Longrightarrow>
   build_comment_tree depth (chain_store n) (chain_comment i) = Inl RecursionError"
proof (induction depth arbitrary: i)
  case 0
  then show ?case by simp
next
  case (Suc depth)
  then have "build_comment_tree depth (chain_store n) (chain_comment (Suc i)) =
               Inl RecursionError" by simp
  moreover have "replies (chain_store n) (chain_comment i) = [chain_comment (Suc i)]"
    using Suc.prems by (simp add: chain_replies)
  ultimately show ?case by (simp add: chain_user)
qed

lemma chain_threaded_too_deep:
  "limit < n \<Longrightarrow> get_threaded_comments limit (chain_store n) 7 = Inl RecursionError"
  using chain_too_deep [of 0 limit n]
  by (simp add: get_threaded_comments_def chain_top_level)

text \<open>
  C7, as the code has it. The recursion of \<open>build_comment_tree\<close> has no bound of its
  own. Python admits at most 1000 stack frames by default, so at most 1000 nested calls;
  on a single thread of 1001 comments, each a reply to the one before, the route returns
  no tree: it raises \<open>RecursionError\<close>, although the content has one top-level comment.
\<close>

theorem deep_thread_counterexample:
  "top_level (chain_store 1001) 7 = [chain_comment 0] \<and>
   get_threaded_comments 1000 (chain_store 1001) 7 = Inl RecursionError"
  using chain_threaded_too_deep [of 1000 1001] by (simp add: chain_top_level)

text \<open>
  C7, amended. Whenever \<open>get_threaded_comments\<close> returns, it returns one node for each
  top-level comment of the content, in their order, and each node represents its comment:
  id, author's name, body, timestamp, and the nodes of its direct replies in order,
  nested in the same way. When every comment has an author, it returns if every thread of
  the content is at most as deep as the number of nested calls the interpreter admits,
  and it raises \<open>RecursionError\<close> otherwise. For a table of three comments with
  different ids, a root, a reply to it and a reply to that reply, with their authors
  present and at least three nested calls admitted, the result is the single root node
  holding the one child that holds the one grandchild.
\<close>

theorem threaded_tree_construction:
  "(get_threaded_comments limit s cid = Inr nodes \<longrightarrow>
      represents_all s nodes (top_level s cid)) \<and>
   (authors_known s \<and> list_all (thread_fits limit s) (top_level s cid) \<longrightarrow>
      (\<exists>ns. get_threaded_comments limit s cid = Inr ns)) \<and>
   (authors_known s \<and> \<not> list_all (thread_fits limit s) (top_level s cid) \<longrightarrow>
      get_threaded_comments limit s cid = Inl RecursionError) \<and>
   (comments s = [c1, c2, c3] \<and>
    distinct [comment_id c1, comment_id c2, comment_id c3] \<and>
    comment_content_id c1 = cid \<and>
    parent_comment_id c1 = None \<and>
    parent_comment_id c2 = Some (comment_id c1) \<and>
    parent_comment_id c3 = Some (comment_id c2) \<and>
    comment_user s c1 = Some u1 \<and> comment_user s c2 = Some u2 \<and>
    comment_user s c3 = Some u3 \<and> 3 \<le> limit \<longrightarrow>
    get_threaded_comments limit s cid =
      Inr [Node (comment_id c1) (username u1) (body c1) (created_at c1)
            [Node (comment_id c2) (username u2) (body c2) (created_at c2)
              [Node (comment_id c3) (username u3) (body c3) (created_at c3) []]]])"
proof -
  have "represents_all s nodes (top_level s cid)"
    if "get_threaded_comments limit s cid = Inr nodes"
    using that unfolding get_threaded_comments_def
    by (rule collect_represents) (rule build_represents)
  moreover have "\<exists>ns. get_threaded_comments limit s cid = Inr ns"
    if "authors_known s \<and> list_all (thread_fits limit s) (top_level s cid)"
    using that threaded_returns [of s limit cid] by simp
  moreover have "get_threaded_comments limit s cid = Inl RecursionError"
    if "authors_known s \<and> \<not> list_all (thread_fits limit s) (top_level s cid)"
    using that threaded_too_deep [of s limit cid] by simp
  moreover have "get_threaded_comments limit s cid =
      Inr [Node (comment_id c1) (username u1) (body c1) (created_at c1)
            [Node (comment_id c2) (username u2) (body c2) (created_at c2)
              [Node (comment_id c3) (username u3) (body c3) (created_at c3) []]]]"
    if "comments s = [c1, c2, c3] \<and>
        distinct [comment_id c1, comment_id c2, comment_id c3] \<and>
        comment_content_id c1 = cid \<and>
        parent_comment_id c1 = None \<and>
        parent_comment_id c2 = Some (comment_id c1) \<and>
        parent_comment_id c3 = Some (comment_id c2) \<and>
        comment_user s c1 = Some u1 \<and> comment_user s c2 = Some u2 \<and>
        comment_user s c3 = Some u3 \<and> 3 \<le> limit"
    using that by (intro chain_of_three) simp_all
  ultimately show ?thesis by (intro conjI impI)
qed

theorem threaded_tree_construction_witness:
  "authors_known thread_example \<and>
   list_all (thread_fits 3 thread_example) (top_level thread_example 7) \<and>
   get_threaded_comments 3 thread_example 7 =
     Inr [Node 1 ''alice'' ''first'' 10 [Node 2 ''bob'' ''second'' 11
           [Node 3 ''alice'' ''third'' 12 []]]] \<and>
   represents_all thread_example
     [Node 1 ''alice'' ''first'' 10 [Node 2 ''bob'' ''second'' 11
       [Node 3 ''alice'' ''third'' 12 []]]]
     (top_level thread_example 7) \<and>
   \<not> list_all (thread_fits 2 thread_example) (top_level thread_example 7) \<and>
   get_threaded_comments 2 thread_example 7 = Inl RecursionError"
  using threaded_tree_construction [where s = thread_example and limit = 3 and cid = 7
          and nodes = "[Node 1 ''alice'' ''first'' 10 [Node 2 ''bob'' ''second'' 11
                         [Node 3 ''alice'' ''third'' 12 []]]]"
          and ?c1.0 = "\<lparr>comment_id = 1, comment_content_id = 7, comment_user_id = 1,
                         body = ''first'', created_at = 10, parent_comment_id = None\<rparr>"
          and ?c2.0 = "\<lparr>comment_id = 2, comment_content_id = 7, comment_user_id = 2,
                         body = ''second'', created_at = 11, parent_comment_id = Some 1\<rparr>"
          and ?c3.0 = "\<lparr>comment_id = 3, comment_content_id = 7, comment_user_id = 1,
                         body = ''third'', created_at = 12, parent_comment_id = Some 2\<rparr>"
          and ?u1.0 = "\<lparr>user_id = 1, username = ''alice'', profile_picture = None\<rparr>"
          and ?u2.0 = "\<lparr>user_id = 2, username = ''bob'', profile_picture = None\<rparr>"
          and ?u3.0 = "\<lparr>user_id = 1, username = ''alice'', profile_picture = None\<rparr>"]
        threaded_tree_construction [where s = thread_example and limit = 2 and cid = 7]
  by (simp add: thread_example_def authors_known_def comment_user_def get_user_def
      top_level_def replies_def numeral_2_eq_2 numeral_3_eq_3)

text \<open>
  C8, as the code has it. Comment 1 belongs to content 10. A request for content 20 that
  names comment 1 as its parent is served like any other: a row is created, and the
  answer has status 201.
\<close>

theorem cross_content_reply_counterexample:
  "map pc_content_id
     (filter (\<lambda>c. pc_id c = 1)
        [\<lparr>pc_id = 1, pc_user_id = 5, pc_content_id = JInt 10, pc_text = JStr ''first''\<rparr>]) =
     [JInt 10] \<and>
   post_comment 6
     [''content_id'' \<mapsto> JInt 20, ''text'' \<mapsto> JStr ''reply'', ''parent_comment_id'' \<mapsto> JInt 1]
     [\<lparr>pc_id = 1, pc_user_id = 5, pc_content_id = JInt 10, pc_text = JStr ''first''\<rparr>] =
     ([\<lparr>pc_id = 1, pc_user_id = 5, pc_content_id = JInt 10, pc_text = JStr ''first''\<rparr>,
       \<lparr>pc_id = 2, pc_user_id = 6, pc_content_id = JInt 20, pc_text = JStr ''reply''\<rparr>],
      Inr (\<lparr>pc_id = 2, pc_user_id = 6, pc_content_id = JInt 20, pc_text = JStr ''reply''\<rparr>, 201))"
  by (simp add: post_comment_def fresh_id_def Let_def)

text \<open>
  C8, amended. \<open>post_comment\<close> reads the body at \<open>content_id\<close> and \<open>text\<close> only:
  whatever else the body holds, a parent comment id among it, changes nothing. When both
  fields are present, exactly one row is added, with the caller, that content id and that
  text, and the answer has status 201.
\<close>

theorem post_comment_ignores_parent:
  assumes "data ''content_id'' = Some cid" and "data ''text'' = Some t"
    and "k \<noteq> ''content_id''" and "k \<noteq> ''text''"
  shows "post_comment u (data(k \<mapsto> p)) tbl = post_comment u data tbl \<and>
         post_comment u data tbl =
           (tbl @ [\<lparr>pc_id = fresh_id (map pc_id tbl), pc_user_id = u,
                     pc_content_id = cid, pc_text = t\<rparr>],
            Inr (\<lparr>pc_id = fresh_id (map pc_id tbl), pc_user_id = u,
                   pc_content_id = cid, pc_text = t\<rparr>, 201))"
  using assms by (simp add: post_comment_def Let_def)

theorem post_comment_ignores_parent_witness:
  "post_comment 6
     [''content_id'' \<mapsto> JInt 20, ''text'' \<mapsto> JStr ''reply'', ''parent_comment_id'' \<mapsto> JInt 1]
     [\<lparr>pc_id = 1, pc_user_id = 5, pc_content_id = JInt 10, pc_text = JStr ''first''\<rparr>] =
   post_comment 6 [''content_id'' \<mapsto> JInt 20, ''text'' \<mapsto> JStr ''reply'']
     [\<lparr>pc_id = 1, pc_user_id = 5, pc_content_id = JInt 10, pc_text = JStr ''first''\<rparr>] \<and>
   fst (post_comment 6 [''content_id'' \<mapsto> JInt 20, ''text'' \<mapsto> JStr ''reply'']
     [\<lparr>pc_id = 1, pc_user_id = 5, pc_content_id = JInt 10, pc_text = JStr ''first''\<rparr>]) =
     [\<lparr>pc_id = 1, pc_user_id = 5, pc_content_id = JInt 10, pc_text = JStr ''first''\<rparr>,
      \<lparr>pc_id = 2, pc_user_id = 6, pc_content_id = JInt 20, pc_text = JStr ''reply''\<rparr>]"
  using post_comment_ignores_parent [where data = "[''content_id'' \<mapsto> JInt 20, ''text'' \<mapsto> JStr ''reply'']"
          and cid = "JInt 20" and t = "JStr ''reply''" and k = "''parent_comment_id''"
          and p = "JInt 1" and u = 6
          and tbl = "[\<lparr>pc_id = 1, pc_user_id = 5, pc_content_id = JInt 10, pc_text = JStr ''first''\<rparr>]"]
  by (simp add: fresh_id_def)

end
